theory Spec2Isabelle
  imports Main
begin

section \<open>Task model (server.go, Task / TaskStatus)\<close>

text \<open>
  A Go \<open>string\<close> is a sequence of bytes; it is modelled as a \<open>string\<close> (a list of
  8-bit characters). Go's \<open>int\<close> is modelled as \<open>int\<close>: the program only compares
  and stores IDs, it never does arithmetic on them.
\<close>

type_synonym TaskStatus = string

definition StatusNotStarted :: TaskStatus where
  "StatusNotStarted = ''not started''"

definition StatusInProgress :: TaskStatus where
  "StatusInProgress = ''in progress''"

definition StatusCompleted :: TaskStatus where
  "StatusCompleted = ''completed''"

definition IsValid :: "TaskStatus \<Rightarrow> bool" where
  "IsValid s \<longleftrightarrow> s = StatusNotStarted \<or> s = StatusInProgress \<or> s = StatusCompleted"

record Task =
  ID :: int
  Title :: string
  Description :: string
  Status :: TaskStatus

subsection \<open>strings.TrimSpace\<close>

text \<open>
  \<open>strings.TrimSpace\<close> belongs to Go's standard library. It removes every leading and
  every trailing white-space rune, where a rune is white space when \<open>unicode.IsSpace\<close>
  holds of it: U+0009 to U+000D, U+0020, U+0085, U+00A0, U+1680, U+2000 to U+200A,
  U+2028, U+2029, U+202F, U+205F and U+3000. On the bytes of a string these are the
  UTF-8 encodings listed in \<open>spaceRunes\<close>; a byte sequence that does not decode to one
  of them (an invalid byte included) is not white space and stops the trimming.
\<close>

definition asciiSpace :: "char list" where
  "asciiSpace = [CHR 0x09, CHR 0x0A, CHR 0x0B, CHR 0x0C, CHR 0x0D, CHR 0x20]"

definition spaceRunes :: "string list" where
  "spaceRunes = map (\<lambda>c. [c]) asciiSpace @
     [[CHR 0xC2, CHR 0x85], [CHR 0xC2, CHR 0xA0], [CHR 0xE1, CHR 0x9A, CHR 0x80]] @
     map (\<lambda>c. [CHR 0xE2, CHR 0x80, c])
       [CHR 0x80, CHR 0x81, CHR 0x82, CHR 0x83, CHR 0x84, CHR 0x85, CHR 0x86, CHR 0x87,
        CHR 0x88, CHR 0x89, CHR 0x8A, CHR 0xA8, CHR 0xA9, CHR 0xAF] @
     [[CHR 0xE2, CHR 0x81, CHR 0x9F], [CHR 0xE3, CHR 0x80, CHR 0x80]]"

text \<open>The width in bytes of the rune of \<open>W\<close> that \<open>s\<close> starts with, 0 when there is none.\<close>

fun spaceWidth :: "string list \<Rightarrow> string \<Rightarrow> nat" where
  "spaceWidth [] s = 0"
| "spaceWidth (w # ws) s =
     (if w \<noteq> [] \<and> take (length w) s = w then length w else spaceWidth ws s)"

function trimLeft :: "string list \<Rightarrow> string \<Rightarrow> string" where
  "trimLeft W s =
     (if spaceWidth W s = 0 then s else trimLeft W (drop (spaceWidth W s) s))"
  by pat_completeness auto
termination
proof (relation "measure (\<lambda>(W, s). length s)")
  show "wf (measure (\<lambda>(W :: string list, s :: string). length s))"
    by simp
next
  fix W :: "string list" and s :: string
  assume pos: "spaceWidth W s \<noteq> 0"
  have "spaceWidth W s \<le> length s"
    by (induction W) (auto dest: arg_cong [where f = length])
  with pos show "((W, drop (spaceWidth W s) s), (W, s)) \<in> measure (\<lambda>(W, s). length s)"
    by simp
qed

declare trimLeft.simps [simp del]

text \<open>Trimming on the right is trimming the reversed string by the reversed runes.\<close>

definition trimRight :: "string list \<Rightarrow> string \<Rightarrow> string" where
  "trimRight W s = rev (trimLeft (map rev W) (rev s))"

definition TrimSpace :: "string \<Rightarrow> string" where
  "TrimSpace s = trimRight spaceRunes (trimLeft spaceRunes s)"

text \<open>A string that consists of runes of \<open>W\<close> only.\<close>

inductive onlyRunes :: "string list \<Rightarrow> string \<Rightarrow> bool" for W :: "string list" where
  onlyRunes_Nil: "onlyRunes W []"
| onlyRunes_App: "w \<in> set W \<Longrightarrow> onlyRunes W s \<Longrightarrow> onlyRunes W (w @ s)"

definition whitespaceOnly :: "string \<Rightarrow> bool" where
  "whitespaceOnly s = onlyRunes spaceRunes s"

subsection \<open>Preprocess and Validate\<close>

definition Preprocess :: "Task \<Rightarrow> Task" where
  "Preprocess t = t\<lparr>Title := TrimSpace (Title t), Description := TrimSpace (Description t)\<rparr>"

text \<open>
  The errors of the program are \<open>fmt.Errorf\<close> values; each constructor stands for one
  message format, with the ID that the message prints.
\<close>

datatype error =
    InvalidID        \<comment> \<open>id must be a positive integer\<close>
  | EmptyTitle       \<comment> \<open>title cannot be empty\<close>
  | InvalidStatus    \<comment> \<open>invalid status\<close>
  | DuplicateID int  \<comment> \<open>task with id %d already exists\<close>
  | NotFound int     \<comment> \<open>task with id %d not found\<close>

definition Validate :: "Task \<Rightarrow> error option" where
  "Validate t =
     (if ID t \<le> 0 then Some InvalidID
      else if Title t = [] then Some EmptyTitle
      else if \<not> IsValid (Status t) then Some InvalidStatus
      else None)"

section \<open>Task store (server.go, TaskStore)\<close>

text \<open>
  Every method of the store takes the mutex before its first access to \<open>tasks\<close> and
  releases it after the last one, so a method is one atomic step on the map. The store is
  passed in and returned.
\<close>

record TaskStore =
  tasks :: "int \<rightharpoonup> Task"

definition NewTaskStore :: TaskStore where
  "NewTaskStore = \<lparr>tasks = Map.empty\<rparr>"

definition CreateTask :: "TaskStore \<Rightarrow> Task \<Rightarrow> TaskStore \<times> error option" where
  "CreateTask ds task =
     (case tasks ds (ID task) of
        Some _ \<Rightarrow> (ds, Some (DuplicateID (ID task)))
      | None \<Rightarrow> (ds\<lparr>tasks := (tasks ds)(ID task \<mapsto> task)\<rparr>, None))"

text \<open>
  \<open>GetAllTasks\<close> appends the values of the map in Go's iteration order, which is not
  specified: the result is the snapshot of the map whose values are listed.
\<close>

definition GetAllTasks :: "TaskStore \<Rightarrow> TaskStore \<times> (int \<rightharpoonup> Task)" where
  "GetAllTasks ds = (ds, tasks ds)"

definition GetTask :: "TaskStore \<Rightarrow> int \<Rightarrow> TaskStore \<times> (error + Task)" where
  "GetTask ds i =
     (case tasks ds i of
        None \<Rightarrow> (ds, Inl (NotFound i))
      | Some task \<Rightarrow> (ds, Inr task))"

definition UpdateTask :: "TaskStore \<Rightarrow> int \<Rightarrow> Task \<Rightarrow> TaskStore \<times> (error + Task)" where
  "UpdateTask ds i updated =
     (case tasks ds i of
        None \<Rightarrow> (ds, Inl (NotFound i))
      | Some task \<Rightarrow>
          (let task' = task\<lparr>Title := Title updated, Description := Description updated,
                            Status := Status updated\<rparr>
           in (ds\<lparr>tasks := (tasks ds)(i \<mapsto> task')\<rparr>, Inr task')))"

text \<open>
  \<open>UpdateTask\<close> of src/unnamed/part_000: it stores \<open>updated\<close> as it came and returns
  \<open>task\<close>, the record read before the write.
\<close>

definition UpdateTask_part_000 ::
  "TaskStore \<Rightarrow> int \<Rightarrow> Task \<Rightarrow> TaskStore \<times> (error + Task)" where
  "UpdateTask_part_000 ds i updated =
     (case tasks ds i of
        None \<Rightarrow> (ds, Inl (NotFound i))
      | Some task \<Rightarrow> (ds\<lparr>tasks := (tasks ds)(i \<mapsto> updated)\<rparr>, Inr task))"

definition DeleteTask :: "TaskStore \<Rightarrow> int \<Rightarrow> TaskStore \<times> error option" where
  "DeleteTask ds i =
     (case tasks ds i of
        None \<Rightarrow> (ds, Some (NotFound i))
      | Some _ \<Rightarrow> (ds\<lparr>tasks := (tasks ds)(i := None)\<rparr>, None))"

text \<open>
  The stores that \<open>NewTaskStore\<close>, \<open>CreateTask\<close>, \<open>UpdateTask\<close> and \<open>DeleteTask\<close> of
  server.go can produce, and the property that every key of the map is the ID of the
  record stored under it.
\<close>

inductive reachable :: "TaskStore \<Rightarrow> bool" where
  reachable_new: "reachable NewTaskStore"
| reachable_create: "reachable ds \<Longrightarrow> reachable (fst (CreateTask ds task))"
| reachable_update: "reachable ds \<Longrightarrow> reachable (fst (UpdateTask ds i updated))"
| reachable_delete: "reachable ds \<Longrightarrow> reachable (fst (DeleteTask ds i))"

definition keyIsID :: "TaskStore \<Rightarrow> bool" where
  "keyIsID ds \<longleftrightarrow> (\<forall>k t. tasks ds k = Some t \<longrightarrow> ID t = k)"

section \<open>Request handlers (server.go, todosHandler / todoHandler)\<close>

text \<open>
  A request is what the router hands to a handler: the method, the value of the path
  wildcard \<open>id\<close> (empty on the collection route) and the body. \<open>json.Decode\<close> belongs
  to the standard library: the body is given by what decoding it into a \<open>Task\<close> yields,
  \<open>None\<close> when decoding fails. Log output is not modelled.
\<close>

record Request =
  Method :: string
  PathValue_id :: string
  Body :: "Task option"

abbreviation MethodGet :: string where "MethodGet \<equiv> ''GET''"
abbreviation MethodPost :: string where "MethodPost \<equiv> ''POST''"
abbreviation MethodPut :: string where "MethodPut \<equiv> ''PUT''"
abbreviation MethodDelete :: string where "MethodDelete \<equiv> ''DELETE''"

abbreviation StatusOK :: nat where "StatusOK \<equiv> 200"
abbreviation StatusCreated :: nat where "StatusCreated \<equiv> 201"
abbreviation StatusNoContent :: nat where "StatusNoContent \<equiv> 204"
abbreviation StatusBadRequest :: nat where "StatusBadRequest \<equiv> 400"
abbreviation StatusNotFound :: nat where "StatusNotFound \<equiv> 404"
abbreviation StatusMethodNotAllowed :: nat where "StatusMethodNotAllowed \<equiv> 405"

datatype payload =
    Empty                          \<comment> \<open>only the header is written\<close>
  | InvalidJSON                    \<comment> \<open>the text "invalid JSON"\<close>
  | MissingId                      \<comment> \<open>the text "missing id"\<close>
  | InvalidId                      \<comment> \<open>the text "invalid id"\<close>
  | MethodNotAllowed               \<comment> \<open>the text "method not allowed"\<close>
  | ErrorText error                \<comment> \<open>\<open>err.Error()\<close>\<close>
  | TaskJSON Task                  \<comment> \<open>one task, encoded\<close>
  | TaskListJSON "int \<rightharpoonup> Task"  \<comment> \<open>the values of the snapshot, encoded as an array\<close>

record Response =
  Code :: nat
  Content :: payload

definition respond :: "nat \<Rightarrow> payload \<Rightarrow> Response" where
  "respond c p = \<lparr>Code = c, Content = p\<rparr>"

subsection \<open>strconv.Atoi\<close>

text \<open>
  \<open>strconv.Atoi\<close> belongs to the standard library: an optional sign, then one or more
  decimal digits, and the value must fit Go's 64-bit \<open>int\<close>.
\<close>

fun digits :: "string \<Rightarrow> nat \<Rightarrow> nat option" where
  "digits [] n = Some n"
| "digits (c # cs) n =
     (if 48 \<le> (of_char c :: nat) \<and> (of_char c :: nat) \<le> 57
      then digits cs (n * 10 + (of_char c - 48)) else None)"

definition Atoi :: "string \<Rightarrow> int option" where
  "Atoi s =
     (case s of
        [] \<Rightarrow> None
      | c # cs \<Rightarrow>
          (let ds = (if c = CHR ''-'' \<or> c = CHR ''+'' then cs else s) in
           if ds = [] then None
           else case digits ds 0 of
                  None \<Rightarrow> None
                | Some n \<Rightarrow>
                    (let v = (if c = CHR ''-'' then - int n else int n)
                     in if - (2 ^ 63) \<le> v \<and> v < 2 ^ 63 then Some v else None)))"

subsection \<open>The collection route\<close>

definition todosHandler :: "TaskStore \<Rightarrow> Request \<Rightarrow> TaskStore \<times> Response" where
  "todosHandler ts r =
     (if Method r = MethodPost then
        (case Body r of
           None \<Rightarrow> (ts, respond StatusBadRequest InvalidJSON)
         | Some t0 \<Rightarrow>
             (let t = Preprocess t0 in
              case Validate t of
                Some err \<Rightarrow> (ts, respond StatusBadRequest (ErrorText err))
              | None \<Rightarrow>
                  (case CreateTask ts t of
                     (ts', Some err) \<Rightarrow> (ts', respond StatusBadRequest (ErrorText err))
                   | (ts', None) \<Rightarrow> (ts', respond StatusCreated Empty))))
      else if Method r = MethodGet then
        (case GetAllTasks ts of (ts', all) \<Rightarrow> (ts', respond StatusOK (TaskListJSON all)))
      else (ts, respond StatusMethodNotAllowed MethodNotAllowed))"

text \<open>
  \<open>todosHandler\<close> of src/unnamed/part_000: \<open>Validate\<close> runs on the task as decoded, and
  \<open>Preprocess\<close> runs after it.
\<close>

definition todosHandler_part_000 :: "TaskStore \<Rightarrow> Request \<Rightarrow> TaskStore \<times> Response" where
  "todosHandler_part_000 ts r =
     (if Method r = MethodPost then
        (case Body r of
           None \<Rightarrow> (ts, respond StatusBadRequest InvalidJSON)
         | Some t0 \<Rightarrow>
             (case Validate t0 of
                Some err \<Rightarrow> (ts, respond StatusBadRequest (ErrorText err))
              | None \<Rightarrow>
                  (let t = Preprocess t0 in
                   case CreateTask ts t of
                     (ts', Some err) \<Rightarrow> (ts', respond StatusBadRequest (ErrorText err))
                   | (ts', None) \<Rightarrow> (ts', respond StatusCreated Empty))))
      else if Method r = MethodGet then
        (case GetAllTasks ts of (ts', all) \<Rightarrow> (ts', respond StatusOK (TaskListJSON all)))
      else (ts, respond StatusMethodNotAllowed MethodNotAllowed))"

subsection \<open>The item route\<close>

definition todoHandler :: "TaskStore \<Rightarrow> Request \<Rightarrow> TaskStore \<times> Response" where
  "todoHandler ts r =
     (let idStr = PathValue_id r in
      if idStr = [] then (ts, respond StatusBadRequest MissingId)
      else case Atoi idStr of
        None \<Rightarrow> (ts, respond StatusBadRequest InvalidId)
      | Some i \<Rightarrow>
          if Method r = MethodGet then
            (case GetTask ts i of
               (ts', Inl err) \<Rightarrow> (ts', respond StatusNotFound (ErrorText err))
             | (ts', Inr task) \<Rightarrow> (ts', respond StatusOK (TaskJSON task)))
          else if Method r = MethodPut then
            (case Body r of
               None \<Rightarrow> (ts, respond StatusBadRequest InvalidJSON)
             | Some t0 \<Rightarrow>
                 (let t = Preprocess t0 in
                  case Validate t of
                    Some err \<Rightarrow> (ts, respond StatusBadRequest (ErrorText err))
                  | None \<Rightarrow>
                      (case UpdateTask ts i t of
                         (ts', Inl err) \<Rightarrow> (ts', respond StatusNotFound (ErrorText err))
                       | (ts', Inr updated) \<Rightarrow> (ts', respond StatusOK (TaskJSON updated)))))
          else if Method r = MethodDelete then
            (case DeleteTask ts i of
               (ts', Some err) \<Rightarrow> (ts', respond StatusNotFound (ErrorText err))
             | (ts', None) \<Rightarrow> (ts', respond StatusNoContent Empty))
          else (ts, respond StatusMethodNotAllowed MethodNotAllowed))"

section \<open>Two concurrent calls of CreateTask\<close>

text \<open>
  The statements of \<open>CreateTask\<close>, one program point before each: taking the mutex, the
  lookup, and on either branch the unlock and the return; on the second branch the write
  to the map comes before the unlock. \<open>Lock\<close> can only be taken while the mutex is free;
  a caller that finds it held waits.
\<close>

datatype pc =
    AtLock
  | AtLookup
  | AtUnlockDup
  | AtReturnDup
  | AtInsert
  | AtUnlockOk
  | AtReturnOk
  | Returned "error option"

record Shared =
  locked :: bool
  store :: TaskStore

fun createStep :: "Task \<Rightarrow> pc \<Rightarrow> Shared \<Rightarrow> (pc \<times> Shared) option" where
  "createStep task AtLock sh =
     (if locked sh then None else Some (AtLookup, sh\<lparr>locked := True\<rparr>))"
| "createStep task AtLookup sh =
     (case tasks (store sh) (ID task) of
        Some _ \<Rightarrow> Some (AtUnlockDup, sh)
      | None \<Rightarrow> Some (AtInsert, sh))"
| "createStep task AtUnlockDup sh = Some (AtReturnDup, sh\<lparr>locked := False\<rparr>)"
| "createStep task AtReturnDup sh = Some (Returned (Some (DuplicateID (ID task))), sh)"
| "createStep task AtInsert sh =
     Some (AtUnlockOk,
           sh\<lparr>store := (store sh)\<lparr>tasks := (tasks (store sh))(ID task \<mapsto> task)\<rparr>\<rparr>)"
| "createStep task AtUnlockOk sh = Some (AtReturnOk, sh\<lparr>locked := False\<rparr>)"
| "createStep task AtReturnOk sh = Some (Returned None, sh)"
| "createStep task (Returned r) sh = None"

text \<open>
  Two callers, the first with \<open>t1\<close> and the second with \<open>t2\<close>; a step of the pair is a
  step of either caller.
\<close>

type_synonym config = "pc \<times> pc \<times> Shared"

inductive step :: "Task \<Rightarrow> Task \<Rightarrow> config \<Rightarrow> config \<Rightarrow> bool" for t1 t2 :: Task where
  step_first: "createStep t1 p1 sh = Some (p1', sh') \<Longrightarrow> step t1 t2 (p1, p2, sh) (p1', p2, sh')"
| step_second: "createStep t2 p2 sh = Some (p2', sh') \<Longrightarrow> step t1 t2 (p1, p2, sh) (p1, p2', sh')"

definition start :: "TaskStore \<Rightarrow> config" where
  "start ds = (AtLock, AtLock, \<lparr>locked = False, store = ds\<rparr>)"

definition reaches :: "Task \<Rightarrow> Task \<Rightarrow> TaskStore \<Rightarrow> config \<Rightarrow> bool" where
  "reaches t1 t2 ds c = (step t1 t2)\<^sup>*\<^sup>* (start ds) c"

text \<open>How many statements a caller has behind it; every step of a caller raises it.\<close>

fun progress :: "pc \<Rightarrow> nat" where
  "progress AtLock = 0"
| "progress AtLookup = 1"
| "progress AtUnlockDup = 2"
| "progress AtReturnDup = 3"
| "progress AtInsert = 2"
| "progress AtUnlockOk = 3"
| "progress AtReturnOk = 4"
| "progress (Returned r) = 5"

text \<open>
  What the program points say about the mutex and the map: \<open>holdsLock\<close> for the points
  between \<open>Lock\<close> and \<open>Unlock\<close>, \<open>won\<close> for the points after the write, \<open>lost\<close> for
  the points after a lookup that found the ID. \<open>createInv\<close> relates them to the shared
  state for two callers that create the same ID \<open>i\<close>.
\<close>

fun holdsLock :: "pc \<Rightarrow> bool" where
  "holdsLock AtLookup = True"
| "holdsLock AtUnlockDup = True"
| "holdsLock AtInsert = True"
| "holdsLock AtUnlockOk = True"
| "holdsLock p = False"

fun won :: "pc \<Rightarrow> bool" where
  "won AtUnlockOk = True"
| "won AtReturnOk = True"
| "won (Returned None) = True"
| "won p = False"

fun lost :: "int \<Rightarrow> pc \<Rightarrow> bool" where
  "lost i AtUnlockDup = True"
| "lost i AtReturnDup = True"
| "lost i (Returned (Some e)) = (e = DuplicateID i)"
| "lost i p = False"

fun returnsWell :: "int \<Rightarrow> pc \<Rightarrow> bool" where
  "returnsWell i (Returned (Some e)) = (e = DuplicateID i)"
| "returnsWell i p = True"

definition createInv :: "int \<Rightarrow> config \<Rightarrow> bool" where
  "createInv i c =
     (case c of (p1, p2, sh) \<Rightarrow>
        returnsWell i p1 \<and> returnsWell i p2
        \<and> (locked sh = (holdsLock p1 \<or> holdsLock p2))
        \<and> \<not> (holdsLock p1 \<and> holdsLock p2)
        \<and> ((tasks (store sh) i \<noteq> None) = (won p1 \<or> won p2))
        \<and> \<not> (won p1 \<and> won p2)
        \<and> (lost i p1 \<longrightarrow> won p2) \<and> (lost i p2 \<longrightarrow> won p1)
        \<and> (p1 = AtInsert \<longrightarrow> \<not> won p2) \<and> (p2 = AtInsert \<longrightarrow> \<not> won p1))"

section \<open>Properties of TrimSpace\<close>

lemma spaceWidth_Nil: "spaceWidth W [] = 0"
  by (induction W) auto

lemma trimLeft_Nil: "trimLeft W [] = []"
  by (subst trimLeft.simps) (simp add: spaceWidth_Nil)

lemma trimLeft_fixed: "spaceWidth W s = 0 \<Longrightarrow> trimLeft W s = s"
  by (subst trimLeft.simps) simp

lemma spaceWidth_trimLeft: "spaceWidth W (trimLeft W s) = 0"
proof (induction W s rule: trimLeft.induct)
  case (1 W s)
  then show ?case
    by (cases "spaceWidth W s = 0") (simp_all add: trimLeft.simps [of W s])
qed

lemma spaceWidth_mem: "0 < spaceWidth W s \<Longrightarrow> take (spaceWidth W s) s \<in> set W"
  by (induction W) (auto split: if_splits)

lemma spaceWidth_append: "0 < spaceWidth W p \<Longrightarrow> 0 < spaceWidth W (p @ q)"
proof (induction W)
  case Nil
  then show ?case by simp
next
  case (Cons w W)
  show ?case
  proof (cases "w \<noteq> [] \<and> take (length w) p = w")
    case True
    then have "length (take (length w) p) = length w" by simp
    then have "length w \<le> length p" by simp
    with True show ?thesis by simp
  next
    case False
    with Cons show ?thesis by auto
  qed
qed

lemma onlyRunes_append: "onlyRunes W a \<Longrightarrow> onlyRunes W b \<Longrightarrow> onlyRunes W (a @ b)"
  by (induction rule: onlyRunes.induct) (auto intro: onlyRunes.intros)

lemma onlyRunes_rev: "onlyRunes (map rev W) s \<Longrightarrow> onlyRunes W (rev s)"
proof (induction rule: onlyRunes.induct)
  case onlyRunes_Nil
  then show ?case by (simp add: onlyRunes.intros)
next
  case (onlyRunes_App w s)
  then obtain v where "v \<in> set W" "w = rev v" by auto
  then have "onlyRunes W (rev w)"
    using onlyRunes.onlyRunes_App [OF _ onlyRunes.onlyRunes_Nil, of v W] by simp
  with onlyRunes_App show ?case by (simp add: onlyRunes_append)
qed

text \<open>What \<open>trimLeft\<close> and \<open>trimRight\<close> cut off is made of runes of \<open>W\<close>.\<close>

lemma trimLeft_split: "\<exists>p. s = p @ trimLeft W s \<and> onlyRunes W p"
proof (induction W s rule: trimLeft.induct)
  case (1 W s)
  show ?case
  proof (cases "spaceWidth W s = 0")
    case True
    then show ?thesis by (auto simp: trimLeft.simps [of W s] intro: onlyRunes_Nil)
  next
    case False
    from 1 [OF False] obtain p where
      p: "drop (spaceWidth W s) s = p @ trimLeft W (drop (spaceWidth W s) s)" "onlyRunes W p"
      by blast
    have "take (spaceWidth W s) s \<in> set W" using False by (simp add: spaceWidth_mem)
    then have "onlyRunes W (take (spaceWidth W s) s @ p)" using p(2) by (rule onlyRunes_App)
    moreover have "s = (take (spaceWidth W s) s @ p) @ trimLeft W s"
      using p(1) False by (metis append.assoc append_take_drop_id trimLeft.simps)
    ultimately show ?thesis by blast
  qed
qed

lemma trimRight_split: "\<exists>q. s = trimRight W s @ q \<and> onlyRunes W q"
proof -
  obtain p where p: "rev s = p @ trimLeft (map rev W) (rev s)" "onlyRunes (map rev W) p"
    using trimLeft_split by blast
  have "s = trimRight W s @ rev p"
    using arg_cong [OF p(1), of rev] by (simp add: trimRight_def)
  with onlyRunes_rev [OF p(2)] show ?thesis by blast
qed

lemma TrimSpace_split:
  "\<exists>p q. s = p @ TrimSpace s @ q \<and> whitespaceOnly p \<and> whitespaceOnly q"
proof -
  obtain p where p: "s = p @ trimLeft spaceRunes s" "onlyRunes spaceRunes p"
    using trimLeft_split by blast
  obtain q where q: "trimLeft spaceRunes s = TrimSpace s @ q" "onlyRunes spaceRunes q"
    using trimRight_split [of "trimLeft spaceRunes s" spaceRunes] by (auto simp: TrimSpace_def)
  from p q show ?thesis unfolding whitespaceOnly_def by metis
qed

text \<open>The result starts with no white-space rune and ends with none.\<close>

lemma TrimSpace_left: "spaceWidth spaceRunes (TrimSpace s) = 0"
proof -
  obtain q where q: "trimLeft spaceRunes s = TrimSpace s @ q"
    using trimRight_split [of "trimLeft spaceRunes s" spaceRunes] by (auto simp: TrimSpace_def)
  have "spaceWidth spaceRunes (TrimSpace s @ q) = 0"
    using spaceWidth_trimLeft [of spaceRunes s] q by simp
  then show ?thesis using spaceWidth_append [of spaceRunes "TrimSpace s" q] by auto
qed

lemma TrimSpace_right: "spaceWidth (map rev spaceRunes) (rev (TrimSpace s)) = 0"
  by (simp add: TrimSpace_def trimRight_def spaceWidth_trimLeft)

lemma TrimSpace_idem: "TrimSpace (TrimSpace s) = TrimSpace s"
proof -
  have "trimLeft spaceRunes (TrimSpace s) = TrimSpace s"
    by (rule trimLeft_fixed) (rule TrimSpace_left)
  moreover have "trimRight spaceRunes (TrimSpace s) = TrimSpace s"
    unfolding trimRight_def using trimLeft_fixed [OF TrimSpace_right [of s]] by simp
  ultimately show ?thesis by (simp add: TrimSpace_def [of "TrimSpace s"])
qed

text \<open>
  No white-space rune is empty and none is the start of another one, so a string of
  white-space runes is trimmed to the empty string.
\<close>

lemma spaceRunes_prefix_free:
  "list_all (\<lambda>v. v \<noteq> [] \<and> list_all (\<lambda>w. take (length v) w = v \<longrightarrow> v = w) spaceRunes)
     spaceRunes"
  by (simp add: spaceRunes_def asciiSpace_def)

lemma spaceRunes_unique:
  assumes v: "v \<in> set spaceRunes" and w: "w \<in> set spaceRunes"
    and hit: "take (length v) (w @ s) = v"
  shows "v = w"
proof -
  have pf: "\<And>a b. a \<in> set spaceRunes \<Longrightarrow> b \<in> set spaceRunes \<Longrightarrow> take (length a) b = a
      \<Longrightarrow> a = b"
    using spaceRunes_prefix_free unfolding list_all_iff by blast
  show ?thesis
  proof (cases "length v \<le> length w")
    case True
    with hit have "take (length v) w = v" by simp
    with v w show ?thesis by (rule pf)
  next
    case False
    then have "take (length w) (take (length v) (w @ s)) = w" by (simp add: min_def)
    with hit have "take (length w) v = w" by simp
    with w v show ?thesis by (rule pf [symmetric])
  qed
qed

lemma spaceWidth_first:
  "w \<in> set W \<Longrightarrow> w \<noteq> [] \<Longrightarrow> \<forall>v \<in> set W. take (length v) (w @ s) = v \<longrightarrow> v = w
     \<Longrightarrow> spaceWidth W (w @ s) = length w"
  by (induction W) auto

lemma spaceWidth_rune: "w \<in> set spaceRunes \<Longrightarrow> spaceWidth spaceRunes (w @ s) = length w"
proof (rule spaceWidth_first)
  assume w: "w \<in> set spaceRunes"
  then show "w \<in> set spaceRunes" .
  from w show "w \<noteq> []" using spaceRunes_prefix_free unfolding list_all_iff by blast
  from w show "\<forall>v\<in>set spaceRunes. take (length v) (w @ s) = v \<longrightarrow> v = w"
    using spaceRunes_unique by blast
qed

lemma trimLeft_whitespaceOnly: "onlyRunes spaceRunes s \<Longrightarrow> trimLeft spaceRunes s = []"
proof (induction rule: onlyRunes.induct)
  case onlyRunes_Nil
  show ?case by (rule trimLeft_Nil)
next
  case (onlyRunes_App w s)
  have ne: "w \<noteq> []"
    using onlyRunes_App(1) spaceRunes_prefix_free unfolding list_all_iff by blast
  have width: "spaceWidth spaceRunes (w @ s) = length w"
    using onlyRunes_App(1) by (rule spaceWidth_rune)
  have "trimLeft spaceRunes (w @ s) = trimLeft spaceRunes (drop (length w) (w @ s))"
    using ne by (subst trimLeft.simps) (simp add: width)
  also have "\<dots> = trimLeft spaceRunes s" by simp
  finally show ?case using onlyRunes_App.IH by simp
qed

lemma TrimSpace_whitespaceOnly: "whitespaceOnly s \<Longrightarrow> TrimSpace s = []"
  by (simp add: whitespaceOnly_def TrimSpace_def trimLeft_whitespaceOnly trimRight_def
      trimLeft_Nil)

lemma TrimSpace_empty_iff: "TrimSpace s = [] \<longleftrightarrow> whitespaceOnly s"
proof
  assume e: "TrimSpace s = []"
  obtain p q where "s = p @ TrimSpace s @ q" "whitespaceOnly p" "whitespaceOnly q"
    using TrimSpace_split by blast
  with e show "whitespaceOnly s" by (simp add: whitespaceOnly_def onlyRunes_append)
qed (rule TrimSpace_whitespaceOnly)

text \<open>Some values of \<open>TrimSpace\<close>, for the examples below.\<close>

lemma TrimSpace_examples:
  "TrimSpace [] = []"
  "TrimSpace '' '' = []"
  "TrimSpace '' Read '' = ''Read''"
  "TrimSpace [CHR 0x20, CHR 0x09, CHR ''R'', CHR ''e'', CHR '' '', CHR ''a'', CHR 0xC2, CHR 0xA0]
     = ''Re a''"
  by (simp_all add: TrimSpace_def trimRight_def trimLeft.simps spaceRunes_def asciiSpace_def)

section \<open>The task model\<close>

text \<open>
  Claim C9. \<open>Preprocess\<close> is idempotent. It leaves the ID and the status as they are and
  replaces the title and the description by their trimmed forms: each is the old value
  without a leading and a trailing part that consist of white space only, and what is
  left neither starts nor ends with a white-space rune.
\<close>

theorem Preprocess_idempotent:
  "Preprocess (Preprocess t) = Preprocess t
   \<and> ID (Preprocess t) = ID t \<and> Status (Preprocess t) = Status t
   \<and> Title (Preprocess t) = TrimSpace (Title t)
   \<and> Description (Preprocess t) = TrimSpace (Description t)
   \<and> (\<exists>p q. Title t = p @ Title (Preprocess t) @ q \<and> whitespaceOnly p \<and> whitespaceOnly q)
   \<and> (\<exists>p q. Description t = p @ Description (Preprocess t) @ q
          \<and> whitespaceOnly p \<and> whitespaceOnly q)
   \<and> spaceWidth spaceRunes (Title (Preprocess t)) = 0
   \<and> spaceWidth (map rev spaceRunes) (rev (Title (Preprocess t))) = 0
   \<and> spaceWidth spaceRunes (Description (Preprocess t)) = 0
   \<and> spaceWidth (map rev spaceRunes) (rev (Description (Preprocess t))) = 0"
  using TrimSpace_split [of "Title t"] TrimSpace_split [of "Description t"]
  by (simp add: Preprocess_def TrimSpace_idem TrimSpace_left TrimSpace_right)

theorem Preprocess_idempotent_witness:
  "Preprocess \<lparr>ID = 2, Title = '' Read '', Description = '' '', Status = StatusCompleted\<rparr>
     = \<lparr>ID = 2, Title = ''Read'', Description = [], Status = StatusCompleted\<rparr>
   \<and> Preprocess (Preprocess
        \<lparr>ID = 2, Title = '' Read '', Description = '' '', Status = StatusCompleted\<rparr>)
     = \<lparr>ID = 2, Title = ''Read'', Description = [], Status = StatusCompleted\<rparr>"
  using Preprocess_idempotent
    [of "\<lparr>ID = 2, Title = '' Read '', Description = '' '', Status = StatusCompleted\<rparr>"]
  by (simp add: Preprocess_def TrimSpace_examples)

section \<open>The task store\<close>

text \<open>
  Claim C3. From a store that does not hold the ID of \<open>t\<close>, the first \<open>CreateTask\<close> of
  \<open>t\<close> succeeds and stores \<open>t\<close> under its ID; the second one, on the store that the
  first one left, fails with the duplicate-ID error. Whenever \<open>CreateTask\<close> fails, the
  error is the duplicate-ID error and the store it returns is the store it was given.
\<close>

theorem CreateTask_twice:
  assumes "tasks ds (ID t) = None"
  shows "CreateTask ds t = (ds\<lparr>tasks := (tasks ds)(ID t \<mapsto> t)\<rparr>, None)
    \<and> CreateTask (ds\<lparr>tasks := (tasks ds)(ID t \<mapsto> t)\<rparr>) t
        = (ds\<lparr>tasks := (tasks ds)(ID t \<mapsto> t)\<rparr>, Some (DuplicateID (ID t)))
    \<and> (\<forall>ds0 t0 ds1 e. CreateTask ds0 t0 = (ds1, Some e)
          \<longrightarrow> ds1 = ds0 \<and> e = DuplicateID (ID t0))"
  using assms by (auto simp: CreateTask_def split: option.splits)

theorem CreateTask_twice_witness:
  "CreateTask NewTaskStore
      \<lparr>ID = 1, Title = ''Task 1'', Description = ''Test'', Status = StatusNotStarted\<rparr>
     = (\<lparr>tasks = [1 \<mapsto>
          \<lparr>ID = 1, Title = ''Task 1'', Description = ''Test'', Status = StatusNotStarted\<rparr>]\<rparr>,
        None)
   \<and> CreateTask
      \<lparr>tasks = [1 \<mapsto>
          \<lparr>ID = 1, Title = ''Task 1'', Description = ''Test'', Status = StatusNotStarted\<rparr>]\<rparr>
      \<lparr>ID = 1, Title = ''Task 1'', Description = ''Test'', Status = StatusNotStarted\<rparr>
     = (\<lparr>tasks = [1 \<mapsto>
          \<lparr>ID = 1, Title = ''Task 1'', Description = ''Test'', Status = StatusNotStarted\<rparr>]\<rparr>,
        Some (DuplicateID 1))"
  using CreateTask_twice [of NewTaskStore
      "\<lparr>ID = 1, Title = ''Task 1'', Description = ''Test'', Status = StatusNotStarted\<rparr>"]
  by (simp add: NewTaskStore_def)

text \<open>
  Claim C5. For an ID that the store does not hold, \<open>GetTask\<close>, \<open>UpdateTask\<close> with any
  replacement and \<open>DeleteTask\<close> each fail with the not-found error of that ID and return
  the store as it was.
\<close>

theorem absent_id_NotFound:
  assumes "tasks ds i = None"
  shows "GetTask ds i = (ds, Inl (NotFound i))
    \<and> UpdateTask ds i newData = (ds, Inl (NotFound i))
    \<and> DeleteTask ds i = (ds, Some (NotFound i))"
  using assms by (simp add: GetTask_def UpdateTask_def DeleteTask_def)

theorem absent_id_NotFound_witness:
  "GetTask NewTaskStore 7 = (NewTaskStore, Inl (NotFound 7))
   \<and> UpdateTask NewTaskStore 7
        \<lparr>ID = 7, Title = ''New'', Description = [], Status = StatusCompleted\<rparr>
       = (NewTaskStore, Inl (NotFound 7))
   \<and> DeleteTask NewTaskStore 7 = (NewTaskStore, Some (NotFound 7))"
  using absent_id_NotFound [of NewTaskStore 7] by (simp add: NewTaskStore_def)

subsection \<open>UpdateTask\<close>

text \<open>
  \<open>UpdateTask\<close> of server.go on an ID that the store holds: the record under the ID gets
  the title, the description and the status of the replacement and keeps its own ID, every
  other entry stays, and the record that was written is returned.
\<close>

lemma UpdateTask_found:
  "tasks ds i = Some old \<Longrightarrow>
     UpdateTask ds i newData =
       (ds\<lparr>tasks := (tasks ds)(i \<mapsto> old\<lparr>Title := Title newData,
            Description := Description newData, Status := Status newData\<rparr>)\<rparr>,
        Inr (old\<lparr>Title := Title newData, Description := Description newData,
            Status := Status newData\<rparr>))"
  by (simp add: UpdateTask_def Let_def)

lemma UpdateTask_keeps_ID:
  "tasks ds i = Some old \<Longrightarrow>
     map_option ID (tasks (fst (UpdateTask ds i newData)) i) = Some (ID old)"
  by (simp add: UpdateTask_found)

lemma UpdateTask_absent: "tasks ds i = None \<Longrightarrow> UpdateTask ds i newData = (ds, Inl (NotFound i))"
  by (simp add: UpdateTask_def)

text \<open>
  Claim C1, for \<open>UpdateTask\<close> of src/unnamed/part_000. On the store and the replacement
  of \<open>TestUpdateTask\<close> (ID 10, title Old, replaced by title New) it writes the replacement
  and returns the record it read before the write, with the title Old. With a replacement
  whose ID is 11, the record stored under the key 10 gets the ID 11.
\<close>

theorem UpdateTask_part_000_returns_stale_record:
  "UpdateTask_part_000
     \<lparr>tasks = [10 \<mapsto> \<lparr>ID = 10, Title = ''Old'', Description = [], Status = StatusNotStarted\<rparr>]\<rparr>
     10 \<lparr>ID = 10, Title = ''New'', Description = [], Status = StatusCompleted\<rparr>
   = (\<lparr>tasks = [10 \<mapsto> \<lparr>ID = 10, Title = ''New'', Description = [], Status = StatusCompleted\<rparr>]\<rparr>,
      Inr \<lparr>ID = 10, Title = ''Old'', Description = [], Status = StatusNotStarted\<rparr>)
   \<and> UpdateTask_part_000
     \<lparr>tasks = [10 \<mapsto> \<lparr>ID = 10, Title = ''Old'', Description = [], Status = StatusNotStarted\<rparr>]\<rparr>
     10 \<lparr>ID = 11, Title = ''New'', Description = [], Status = StatusCompleted\<rparr>
   = (\<lparr>tasks = [10 \<mapsto> \<lparr>ID = 11, Title = ''New'', Description = [], Status = StatusCompleted\<rparr>]\<rparr>,
      Inr \<lparr>ID = 10, Title = ''Old'', Description = [], Status = StatusNotStarted\<rparr>)"
  by (simp add: UpdateTask_part_000_def)





subsection \<open>Keys and IDs\<close>

text \<open>
  With \<open>UpdateTask\<close> of server.go every store that the operations produce from the new
  store keeps each record under its own ID.
\<close>

lemma keyIsID_create: "keyIsID ds \<Longrightarrow> keyIsID (fst (CreateTask ds task))"
  by (auto simp: keyIsID_def CreateTask_def split: option.splits if_splits)

lemma keyIsID_update: "keyIsID ds \<Longrightarrow> keyIsID (fst (UpdateTask ds i updated))"
  by (auto simp: keyIsID_def UpdateTask_def Let_def split: option.splits if_splits)

lemma keyIsID_delete: "keyIsID ds \<Longrightarrow> keyIsID (fst (DeleteTask ds i))"
  by (auto simp: keyIsID_def DeleteTask_def split: option.splits if_splits)

lemma reachable_keyIsID: "reachable ds \<Longrightarrow> keyIsID ds"
proof (induction rule: reachable.induct)
  case reachable_new
  show ?case by (simp add: keyIsID_def NewTaskStore_def)
qed (simp_all add: keyIsID_create keyIsID_update keyIsID_delete)

text \<open>
  Claim C8, for \<open>UpdateTask\<close> of src/unnamed/part_000. From the new store, creating a
  task with the ID 1 and then updating the key 1 with a replacement whose ID is 2 leaves
  a record with the ID 2 under the key 1.
\<close>

theorem UpdateTask_part_000_breaks_key_is_ID:
  "tasks (fst (UpdateTask_part_000
       (fst (CreateTask NewTaskStore
          \<lparr>ID = 1, Title = ''Old'', Description = [], Status = StatusNotStarted\<rparr>))
       1 \<lparr>ID = 2, Title = ''New'', Description = [], Status = StatusCompleted\<rparr>)) 1
   = Some \<lparr>ID = 2, Title = ''New'', Description = [], Status = StatusCompleted\<rparr>"
  by (simp add: UpdateTask_part_000_def CreateTask_def NewTaskStore_def)

section \<open>The request handlers\<close>

text \<open>
  \<open>todosHandler\<close> of server.go trims before it validates: a POST whose title is empty
  or white space only is answered with 400 and a validation error, and the store is
  returned as it was.
\<close>

lemma Validate_blank_title:
  "whitespaceOnly (Title t) \<Longrightarrow>
     Validate (Preprocess t) = Some (if ID t \<le> 0 then InvalidID else EmptyTitle)"
  by (simp add: Validate_def Preprocess_def TrimSpace_whitespaceOnly)

lemma todosHandler_rejects_blank_title:
  "Method r = MethodPost \<Longrightarrow> Body r = Some t \<Longrightarrow> whitespaceOnly (Title t) \<Longrightarrow>
     todosHandler ts r =
       (ts, respond StatusBadRequest (ErrorText (if ID t \<le> 0 then InvalidID else EmptyTitle)))"
  by (simp add: todosHandler_def Validate_blank_title)

text \<open>
  Claim C2, for \<open>todosHandler\<close> of src/unnamed/part_000. A POST to the new store with
  the ID 1, a title of one space and the status "not started" passes \<open>Validate\<close>, which
  runs on the title as decoded; the title is trimmed afterwards, the task is stored with
  an empty title and the answer is 201.
\<close>

theorem todosHandler_part_000_accepts_blank_title:
  "todosHandler_part_000 NewTaskStore
     \<lparr>Method = MethodPost, PathValue_id = [],
      Body = Some \<lparr>ID = 1, Title = '' '', Description = [], Status = StatusNotStarted\<rparr>\<rparr>
   = (\<lparr>tasks = [1 \<mapsto> \<lparr>ID = 1, Title = [], Description = [], Status = StatusNotStarted\<rparr>]\<rparr>,
      respond StatusCreated Empty)"
  by (simp add: todosHandler_part_000_def Validate_def IsValid_def Preprocess_def
      TrimSpace_examples CreateTask_def NewTaskStore_def)

text \<open>
  The store does not trim: what \<open>CreateTask\<close> stored is what \<open>GetTask\<close> returns.
\<close>

lemma CreateTask_then_GetTask:
  "tasks ds (ID t) = None \<Longrightarrow>
     CreateTask ds t = (ds\<lparr>tasks := (tasks ds)(ID t \<mapsto> t)\<rparr>, None)
     \<and> GetTask (ds\<lparr>tasks := (tasks ds)(ID t \<mapsto> t)\<rparr>) (ID t)
       = (ds\<lparr>tasks := (tasks ds)(ID t \<mapsto> t)\<rparr>, Inr t)"
  by (simp add: CreateTask_def GetTask_def)



lemma Atoi_Nil: "Atoi [] = None"
  by (simp add: Atoi_def)

text \<open>
  On the item route the path value is checked before the method: PATCH with the path
  value "abc" is answered with 400, not with 405.
\<close>

theorem todoHandler_checks_id_before_method:
  "todoHandler NewTaskStore \<lparr>Method = ''PATCH'', PathValue_id = ''abc'', Body = None\<rparr>
     = (NewTaskStore, respond StatusBadRequest InvalidId)
   \<and> Code (respond StatusBadRequest InvalidId) \<noteq> StatusMethodNotAllowed"
  by (simp add: todoHandler_def Atoi_def respond_def)

text \<open>
  Claim C7, amended. On the collection route every method other than POST and GET is
  answered with 405, whatever else the request holds, and the store is returned as it
  was. On the item route every method other than GET, PUT and DELETE is answered with 405
  when the path value reads as an integer; when the path value is empty or does not read
  as an integer the answer is 400, for every method.
\<close>

theorem method_not_allowed:
  "(Method r \<noteq> MethodPost \<and> Method r \<noteq> MethodGet \<longrightarrow>
      todosHandler ts r = (ts, respond StatusMethodNotAllowed MethodNotAllowed))
   \<and> (Method r \<noteq> MethodGet \<and> Method r \<noteq> MethodPut \<and> Method r \<noteq> MethodDelete
        \<and> Atoi (PathValue_id r) \<noteq> None \<longrightarrow>
      todoHandler ts r = (ts, respond StatusMethodNotAllowed MethodNotAllowed))
   \<and> (PathValue_id r = [] \<longrightarrow> todoHandler ts r = (ts, respond StatusBadRequest MissingId))
   \<and> (PathValue_id r \<noteq> [] \<and> Atoi (PathValue_id r) = None \<longrightarrow>
      todoHandler ts r = (ts, respond StatusBadRequest InvalidId))"
  by (auto simp: todosHandler_def todoHandler_def Let_def Atoi_Nil split: option.splits)

theorem method_not_allowed_witness:
  "todosHandler NewTaskStore \<lparr>Method = ''PATCH'', PathValue_id = [], Body = None\<rparr>
     = (NewTaskStore, respond StatusMethodNotAllowed MethodNotAllowed)
   \<and> todoHandler NewTaskStore \<lparr>Method = ''PATCH'', PathValue_id = ''5'', Body = None\<rparr>
     = (NewTaskStore, respond StatusMethodNotAllowed MethodNotAllowed)
   \<and> todoHandler NewTaskStore \<lparr>Method = MethodGet, PathValue_id = [], Body = None\<rparr>
     = (NewTaskStore, respond StatusBadRequest MissingId)
   \<and> todoHandler NewTaskStore \<lparr>Method = MethodDelete, PathValue_id = ''x1'', Body = None\<rparr>
     = (NewTaskStore, respond StatusBadRequest InvalidId)"
  using method_not_allowed [of "\<lparr>Method = ''PATCH'', PathValue_id = [], Body = None\<rparr>" NewTaskStore]
    method_not_allowed [of "\<lparr>Method = ''PATCH'', PathValue_id = ''5'', Body = None\<rparr>" NewTaskStore]
    method_not_allowed [of "\<lparr>Method = MethodGet, PathValue_id = [], Body = None\<rparr>" NewTaskStore]
    method_not_allowed
      [of "\<lparr>Method = MethodDelete, PathValue_id = ''x1'', Body = None\<rparr>" NewTaskStore]
  by (simp add: Atoi_def)

section \<open>Two concurrent calls of CreateTask with one ID\<close>

text \<open>Every step of either caller keeps \<open>createInv\<close>, and it holds at the start.\<close>

lemma createInv_first:
  "createStep t p1 sh = Some (p1', sh') \<Longrightarrow> ID t = i \<Longrightarrow> createInv i (p1, p2, sh)
     \<Longrightarrow> createInv i (p1', p2, sh')"
  by (cases p1; cases p2) (auto simp: createInv_def split: if_splits option.splits)

lemma createInv_second:
  "createStep t p2 sh = Some (p2', sh') \<Longrightarrow> ID t = i \<Longrightarrow> createInv i (p1, p2, sh)
     \<Longrightarrow> createInv i (p1, p2', sh')"
  by (cases p1; cases p2) (auto simp: createInv_def split: if_splits option.splits)

lemma createInv_step:
  "step t1 t2 c c' \<Longrightarrow> ID t1 = i \<Longrightarrow> ID t2 = i \<Longrightarrow> createInv i c \<Longrightarrow> createInv i c'"
  by (induction rule: step.induct) (auto intro: createInv_first createInv_second)

lemma createInv_start: "tasks ds i = None \<Longrightarrow> createInv i (start ds)"
  by (simp add: createInv_def start_def)

lemma createInv_reaches:
  assumes "ID t1 = i" "ID t2 = i" "tasks ds i = None"
  shows "reaches t1 t2 ds c \<Longrightarrow> createInv i c"
  unfolding reaches_def
  by (induction rule: rtranclp_induct) (auto intro: createInv_start createInv_step assms)

text \<open>When both callers have returned, one has \<open>nil\<close> and the other the duplicate-ID error.\<close>

lemma createInv_final:
  "createInv i (Returned r1, Returned r2, sh) \<Longrightarrow>
     (r1 = None \<and> r2 = Some (DuplicateID i)) \<or> (r1 = Some (DuplicateID i) \<and> r2 = None)"
  by (cases r1; cases r2) (auto simp: createInv_def)

text \<open>A caller cannot step only when it waits for the held mutex or has returned.\<close>

lemma createStep_None:
  "createStep t p sh = None \<longleftrightarrow> (p = AtLock \<and> locked sh) \<or> (\<exists>r. p = Returned r)"
  by (cases p) (auto split: option.splits)

lemma createInv_not_stuck:
  assumes inv: "createInv i (p1, p2, sh)"
  shows "(\<exists>r1 r2. p1 = Returned r1 \<and> p2 = Returned r2) \<or> (\<exists>c'. step t1 t2 (p1, p2, sh) c')"
proof (cases "createStep t1 p1 sh")
  case (Some q)
  then have "step t1 t2 (p1, p2, sh) (fst q, p2, snd q)" by (cases q) (simp add: step_first)
  then show ?thesis by blast
next
  case first: None
  show ?thesis
  proof (cases "createStep t2 p2 sh")
    case (Some q)
    then have "step t1 t2 (p1, p2, sh) (p1, fst q, snd q)" by (cases q) (simp add: step_second)
    then show ?thesis by blast
  next
    case second: None
    from first second inv show ?thesis
      unfolding createStep_None by (auto simp: createInv_def)
  qed
qed

lemma step_progress:
  "step t1 t2 (p1, p2, sh) (p1', p2', sh') \<Longrightarrow>
     progress p1 + progress p2 < progress p1' + progress p2' \<and> progress p1' + progress p2' \<le> 10"
  by (erule step.cases; cases p1; cases p2) (auto split: if_splits option.splits)

text \<open>The two runs in which one caller finishes before the other starts.\<close>

lemma run_first_then_second:
  assumes same: "ID t1 = ID t2" and absent: "tasks ds (ID t1) = None"
  shows "reaches t1 t2 ds
     (Returned None, Returned (Some (DuplicateID (ID t1))),
      \<lparr>locked = False, store = ds\<lparr>tasks := (tasks ds)(ID t1 \<mapsto> t1)\<rparr>\<rparr>)"
proof -
  let ?ds' = "ds\<lparr>tasks := (tasks ds)(ID t1 \<mapsto> t1)\<rparr>"
  let ?s = "(step t1 t2)\<^sup>*\<^sup>*"
  have "?s (start ds) (AtLookup, AtLock, \<lparr>locked = True, store = ds\<rparr>)"
    unfolding start_def by (rule r_into_rtranclp, rule step_first) simp
  also have "?s \<dots> (AtInsert, AtLock, \<lparr>locked = True, store = ds\<rparr>)"
    by (rule r_into_rtranclp, rule step_first) (simp add: absent)
  also have "?s \<dots> (AtUnlockOk, AtLock, \<lparr>locked = True, store = ?ds'\<rparr>)"
    by (rule r_into_rtranclp, rule step_first) simp
  also have "?s \<dots> (AtReturnOk, AtLock, \<lparr>locked = False, store = ?ds'\<rparr>)"
    by (rule r_into_rtranclp, rule step_first) simp
  also have "?s \<dots> (Returned None, AtLock, \<lparr>locked = False, store = ?ds'\<rparr>)"
    by (rule r_into_rtranclp, rule step_first) simp
  also have "?s \<dots> (Returned None, AtLookup, \<lparr>locked = True, store = ?ds'\<rparr>)"
    by (rule r_into_rtranclp, rule step_second) simp
  also have "?s \<dots> (Returned None, AtUnlockDup, \<lparr>locked = True, store = ?ds'\<rparr>)"
    by (rule r_into_rtranclp, rule step_second) (simp add: same [symmetric])
  also have "?s \<dots> (Returned None, AtReturnDup, \<lparr>locked = False, store = ?ds'\<rparr>)"
    by (rule r_into_rtranclp, rule step_second) simp
  also have "?s \<dots> (Returned None, Returned (Some (DuplicateID (ID t1))),
      \<lparr>locked = False, store = ?ds'\<rparr>)"
    by (rule r_into_rtranclp, rule step_second) (simp add: same)
  finally show ?thesis by (simp add: reaches_def)
qed

lemma run_second_then_first:
  assumes same: "ID t1 = ID t2" and absent: "tasks ds (ID t1) = None"
  shows "reaches t1 t2 ds
     (Returned (Some (DuplicateID (ID t1))), Returned None,
      \<lparr>locked = False, store = ds\<lparr>tasks := (tasks ds)(ID t1 \<mapsto> t2)\<rparr>\<rparr>)"
proof -
  let ?ds' = "ds\<lparr>tasks := (tasks ds)(ID t1 \<mapsto> t2)\<rparr>"
  let ?s = "(step t1 t2)\<^sup>*\<^sup>*"
  have "?s (start ds) (AtLock, AtLookup, \<lparr>locked = True, store = ds\<rparr>)"
    unfolding start_def by (rule r_into_rtranclp, rule step_second) simp
  also have "?s \<dots> (AtLock, AtInsert, \<lparr>locked = True, store = ds\<rparr>)"
    by (rule r_into_rtranclp, rule step_second) (simp add: absent same [symmetric])
  also have "?s \<dots> (AtLock, AtUnlockOk, \<lparr>locked = True, store = ?ds'\<rparr>)"
    by (rule r_into_rtranclp, rule step_second) (simp add: same)
  also have "?s \<dots> (AtLock, AtReturnOk, \<lparr>locked = False, store = ?ds'\<rparr>)"
    by (rule r_into_rtranclp, rule step_second) simp
  also have "?s \<dots> (AtLock, Returned None, \<lparr>locked = False, store = ?ds'\<rparr>)"
    by (rule r_into_rtranclp, rule step_second) simp
  also have "?s \<dots> (AtLookup, Returned None, \<lparr>locked = True, store = ?ds'\<rparr>)"
    by (rule r_into_rtranclp, rule step_first) simp
  also have "?s \<dots> (AtUnlockDup, Returned None, \<lparr>locked = True, store = ?ds'\<rparr>)"
    by (rule r_into_rtranclp, rule step_first) simp
  also have "?s \<dots> (AtReturnDup, Returned None, \<lparr>locked = False, store = ?ds'\<rparr>)"
    by (rule r_into_rtranclp, rule step_first) simp
  also have "?s \<dots> (Returned (Some (DuplicateID (ID t1))), Returned None,
      \<lparr>locked = False, store = ?ds'\<rparr>)"
    by (rule r_into_rtranclp, rule step_first) simp
  finally show ?thesis by (simp add: reaches_def)
qed

text \<open>
  Claim C10. Two callers run \<open>CreateTask\<close> concurrently with tasks of one ID on a store
  that does not hold it, their statements interleaved in any order that the mutex allows.
  Whenever both have returned, exactly one has returned \<open>nil\<close> and the other the
  duplicate-ID error. Either caller can be the one that succeeds: there is a run in which
  the first succeeds and its task is stored, and one in which the second succeeds and its
  task is stored. Before both have returned some caller can always take a step, and every
  step brings a caller one statement further, so both do return, after at most ten steps.
\<close>

theorem concurrent_CreateTask_one_winner:
  assumes "ID t1 = ID t2" and "tasks ds (ID t1) = None"
  shows "(\<forall>r1 r2 sh. reaches t1 t2 ds (Returned r1, Returned r2, sh) \<longrightarrow>
            (r1 = None \<and> r2 = Some (DuplicateID (ID t1)))
            \<or> (r1 = Some (DuplicateID (ID t1)) \<and> r2 = None))
    \<and> reaches t1 t2 ds
         (Returned None, Returned (Some (DuplicateID (ID t1))),
          \<lparr>locked = False, store = ds\<lparr>tasks := (tasks ds)(ID t1 \<mapsto> t1)\<rparr>\<rparr>)
    \<and> reaches t1 t2 ds
         (Returned (Some (DuplicateID (ID t1))), Returned None,
          \<lparr>locked = False, store = ds\<lparr>tasks := (tasks ds)(ID t1 \<mapsto> t2)\<rparr>\<rparr>)
    \<and> (\<forall>p1 p2 sh. reaches t1 t2 ds (p1, p2, sh) \<longrightarrow>
            (\<exists>r1 r2. p1 = Returned r1 \<and> p2 = Returned r2)
            \<or> (\<exists>c'. step t1 t2 (p1, p2, sh) c'))
    \<and> (\<forall>p1 p2 sh p1' p2' sh'. step t1 t2 (p1, p2, sh) (p1', p2', sh') \<longrightarrow>
            progress p1 + progress p2 < progress p1' + progress p2'
            \<and> progress p1' + progress p2' \<le> 10)"
proof -
  have inv: "createInv (ID t1) c" if "reaches t1 t2 ds c" for c
    using createInv_reaches [OF refl assms(1) [symmetric] assms(2) that] .
  have final: "(r1 = None \<and> r2 = Some (DuplicateID (ID t1)))
      \<or> (r1 = Some (DuplicateID (ID t1)) \<and> r2 = None)"
    if "reaches t1 t2 ds (Returned r1, Returned r2, sh)" for r1 r2 sh
    using createInv_final [OF inv [OF that]] .
  have live: "(\<exists>r1 r2. p1 = Returned r1 \<and> p2 = Returned r2)
      \<or> (\<exists>c'. step t1 t2 (p1, p2, sh) c')"
    if "reaches t1 t2 ds (p1, p2, sh)" for p1 p2 sh
    using createInv_not_stuck [OF inv [OF that]] .
  from final live run_first_then_second [OF assms] run_second_then_first [OF assms]
    step_progress [of t1 t2]
  show ?thesis by blast
qed

theorem concurrent_CreateTask_one_winner_witness:
  "reaches \<lparr>ID = 1, Title = ''A'', Description = [], Status = StatusNotStarted\<rparr>
      \<lparr>ID = 1, Title = ''B'', Description = [], Status = StatusNotStarted\<rparr> NewTaskStore
      (Returned None, Returned (Some (DuplicateID 1)),
       \<lparr>locked = False, store = \<lparr>tasks = [1 \<mapsto>
          \<lparr>ID = 1, Title = ''A'', Description = [], Status = StatusNotStarted\<rparr>]\<rparr>\<rparr>)
   \<and> reaches \<lparr>ID = 1, Title = ''A'', Description = [], Status = StatusNotStarted\<rparr>
      \<lparr>ID = 1, Title = ''B'', Description = [], Status = StatusNotStarted\<rparr> NewTaskStore
      (Returned (Some (DuplicateID 1)), Returned None,
       \<lparr>locked = False, store = \<lparr>tasks = [1 \<mapsto>
          \<lparr>ID = 1, Title = ''B'', Description = [], Status = StatusNotStarted\<rparr>]\<rparr>\<rparr>)"
  using concurrent_CreateTask_one_winner
    [of "\<lparr>ID = 1, Title = ''A'', Description = [], Status = StatusNotStarted\<rparr>"
        "\<lparr>ID = 1, Title = ''B'', Description = [], Status = StatusNotStarted\<rparr>" NewTaskStore]
  by (simp add: NewTaskStore_def)

end
